theory Spec2Isabelle
  imports Complex_Main "HOL-Library.Word"
begin

unbundle bit_operations_syntax

section \<open>Numeric model\<close>

text \<open>
  The C type \<open>float\<close> (and Python's \<open>float\<close> in the benchmark script) is modelled by
  \<open>real\<close>: arithmetic is exact, there is no rounding, no overflow, no NaN and no infinity.
  The constants \<open>100.0f\<close>, \<open>0.5f\<close>, \<open>1e-5f\<close> are the rationals they denote. Division in HOL
  is total (\<open>x / 0 = 0\<close>), where C yields an infinity or a NaN that the exact model does
  not have: the theorems on the values of the transform (C2, C7) carry bounds on the
  inputs under which every divisor of the code is positive, and the other theorems on
  \<open>process\<close> say which float of the output is which function of which floats of the
  input, whatever the value of a quotient.
  C \<open>int\<close> version numbers are unbounded \<open>int\<close>; buffer sizes (\<open>width\<close>, \<open>height\<close>, the
  channel count) are \<open>nat\<close>.
\<close>

type_synonym cfloat = real

section \<open>src/iop/velvia.c: parameters\<close>

text \<open>
  \<open>dt_iop_velvia_params_t\<close>, version 2 of the stored parameters. Its fields \<open>strength\<close>
  and \<open>bias\<close> carry the prefix \<open>p_\<close>, those of the working data \<open>dt_iop_velvia_data_t\<close>
  the prefix \<open>d_\<close>: the two structures share their field names, and \<open>strength\<close> and
  \<open>bias\<close> are also locals of \<open>process\<close> and \<open>process_cl\<close>.
\<close>

record dt_iop_velvia_params_t =
  p_strength :: cfloat
  p_bias :: cfloat

text \<open>\<open>dt_iop_velvia_params1_t\<close>, the legacy version 1 layout.\<close>

record dt_iop_velvia_params1_t =
  saturation :: cfloat
  vibrance :: cfloat
  luminance :: cfloat
  clarity :: cfloat

text \<open>
  \<open>legacy_params(self, old_params, old_version, new_params, new_version)\<close>. The module
  pointer \<open>self\<close> is not used by the body and is left out. The function writes through
  \<open>new_params\<close> and returns an \<open>int\<close>; the model returns the return value together with
  the contents of the record behind \<open>new_params\<close> after the call.
\<close>

definition legacy_params ::
  "dt_iop_velvia_params1_t \<Rightarrow> int \<Rightarrow> dt_iop_velvia_params_t \<Rightarrow> int
     \<Rightarrow> int \<times> dt_iop_velvia_params_t" where
  "legacy_params old_params old_version new_params new_version =
     (if old_version = 1 \<and> new_version = 2
      then (0, new_params\<lparr> p_strength := saturation old_params * vibrance old_params / 100,
                             p_bias := luminance old_params \<rparr>)
      else (1, new_params))"

section \<open>src/iop/velvia.c: the pixel transform\<close>

text \<open>
  \<open>dt_iop_velvia_data_t\<close>, the working data of one pipeline piece, filled by
  \<open>commit_params\<close> from the parameters.
\<close>

record dt_iop_velvia_data_t =
  d_strength :: cfloat
  d_bias :: cfloat

definition commit_params :: "dt_iop_velvia_params_t \<Rightarrow> dt_iop_velvia_data_t" where
  "commit_params p = \<lparr> d_strength = p_strength p, d_bias = p_bias p \<rparr>"

text \<open>
  The pipeline structures are declared in headers outside the sources at hand
  (\<open>develop/pixelpipe.h\<close>, \<open>develop/imageop.h\<close>); the records hold the fields that
  \<open>process\<close> and \<open>process_cl\<close> read: \<open>piece->pipe->mask_display\<close>, \<open>piece->pipe->devid\<close>,
  \<open>piece->data\<close>, \<open>piece->colors\<close>, and the rectangle of a region of interest (its origin \<open>x\<close>, \<open>y\<close> as \<open>roi_x\<close>, \<open>roi_y\<close>).
\<close>

record dt_dev_pixelpipe_t =
  mask_display :: "32 word"
  devid :: int

record dt_dev_pixelpipe_iop_t =
  pipe :: dt_dev_pixelpipe_t
  data :: dt_iop_velvia_data_t
  colors :: nat

record dt_iop_roi_t =
  roi_x :: int
  roi_y :: int
  width :: nat
  height :: nat

text \<open>
  Modelled from the spec: the flag \<open>DT_DEV_PIXELPIPE_DISPLAY_MASK\<close> that marks the
  mask-preview mode of the pipeline is declared outside the sources at hand. It is one
  bit of \<open>mask_display\<close>; the theorems below never depend on which.
\<close>

definition DT_DEV_PIXELPIPE_DISPLAY_MASK :: "32 word" where
  "DT_DEV_PIXELPIPE_DISPLAY_MASK = 1"

text \<open>
  Modelled from the spec: the macros \<open>MAX\<close>, \<open>MIN\<close> and \<open>CLAMPS\<close> come from headers
  outside the sources at hand. The spec has the transform take the channel maximum and
  minimum and clamp to an interval; the definitions are the usual comparison chains
  \<open>a > b ? a : b\<close>, \<open>a < b ? a : b\<close> and \<open>A > L ? (A < H ? A : H) : L\<close>.
\<close>

definition MAX_f :: "cfloat \<Rightarrow> cfloat \<Rightarrow> cfloat" where
  "MAX_f a b = (if a > b then a else b)"

definition MIN_f :: "cfloat \<Rightarrow> cfloat \<Rightarrow> cfloat" where
  "MIN_f a b = (if a < b then a else b)"

definition CLAMPS :: "cfloat \<Rightarrow> cfloat \<Rightarrow> cfloat \<Rightarrow> cfloat" where
  "CLAMPS A L H = (if A > L then (if A < H then A else H) else L)"

text \<open>
  The locals of the loop body of \<open>process\<close>, each under its own name, as functions of
  the three channels \<open>in[0]\<close>, \<open>in[1]\<close>, \<open>in[2]\<close> of the pixel.
\<close>

definition pmax :: "cfloat \<Rightarrow> cfloat \<Rightarrow> cfloat \<Rightarrow> cfloat" where
  "pmax in0 in1 in2 = MAX_f in0 (MAX_f in1 in2)"

definition pmin :: "cfloat \<Rightarrow> cfloat \<Rightarrow> cfloat \<Rightarrow> cfloat" where
  "pmin in0 in1 in2 = MIN_f in0 (MIN_f in1 in2)"

definition plum :: "cfloat \<Rightarrow> cfloat \<Rightarrow> cfloat \<Rightarrow> cfloat" where
  "plum in0 in1 in2 = (pmax in0 in1 in2 + pmin in0 in1 in2) / 2"

text \<open>The divisor of the branch of \<open>psat\<close> that the pixel selects.\<close>

definition psat_divisor :: "cfloat \<Rightarrow> cfloat \<Rightarrow> cfloat \<Rightarrow> cfloat" where
  "psat_divisor in0 in1 in2 =
     (if plum in0 in1 in2 \<le> 1 / 2
      then 1 / 100000 + pmax in0 in1 in2 + pmin in0 in1 in2
      else 1 / 100000 + MAX_f 0 (2 - pmax in0 in1 in2 - pmin in0 in1 in2))"

definition psat :: "cfloat \<Rightarrow> cfloat \<Rightarrow> cfloat \<Rightarrow> cfloat" where
  "psat in0 in1 in2 =
     (if plum in0 in1 in2 \<le> 1 / 2
      then (pmax in0 in1 in2 - pmin in0 in1 in2)
             / (1 / 100000 + pmax in0 in1 in2 + pmin in0 in1 in2)
      else (pmax in0 in1 in2 - pmin in0 in1 in2)
             / (1 / 100000 + MAX_f 0 (2 - pmax in0 in1 in2 - pmin in0 in1 in2)))"

definition pweight :: "dt_iop_velvia_data_t \<Rightarrow> cfloat \<Rightarrow> cfloat \<Rightarrow> cfloat \<Rightarrow> cfloat" where
  "pweight d in0 in1 in2 =
     CLAMPS (((1 - (3 / 2 * psat in0 in1 in2))
                + ((1 + (\<bar>plum in0 in1 in2 - 1 / 2\<bar> * 2)) * (1 - d_bias d)))
               / (1 + (1 - d_bias d)))
            0 1"

text \<open>
  The three values the loop body stores in \<open>out[0]\<close>, \<open>out[1]\<close>, \<open>out[2]\<close>; \<open>strength\<close> is
  the local \<open>data->strength / 100.0f\<close>.
\<close>

definition velvia_pixel ::
  "dt_iop_velvia_data_t \<Rightarrow> cfloat \<Rightarrow> cfloat \<Rightarrow> cfloat \<Rightarrow> cfloat \<Rightarrow> cfloat \<times> cfloat \<times> cfloat"
  where
  "velvia_pixel d strength in0 in1 in2 =
     (let saturation = strength * pweight d in0 in1 in2
      in (CLAMPS (in0 + saturation * (in0 - 1 / 2 * (in1 + in2))) 0 1,
          CLAMPS (in1 + saturation * (in1 - 1 / 2 * (in2 + in0))) 0 1,
          CLAMPS (in2 + saturation * (in2 - 1 / 2 * (in0 + in1))) 0 1))"

text \<open>
  Buffers are lists of floats, \<open>ch\<close> consecutive floats per pixel; the input and the
  output buffer are two different objects (the input is \<open>const\<close>), so the model reads
  \<open>ivoid\<close> and threads the output list. An access beyond the end of a buffer is
  undefined behaviour in C: the model returns \<open>None\<close> there.

  One iteration \<open>k\<close> of the loop of \<open>process\<close>: it reads \<open>in[0..2]\<close> at \<open>ivoid + ch * k\<close>
  and writes \<open>out[0..2]\<close> at \<open>ovoid + ch * k\<close>.
\<close>

definition velvia_body ::
  "dt_iop_velvia_data_t \<Rightarrow> cfloat \<Rightarrow> nat \<Rightarrow> cfloat list \<Rightarrow> cfloat list \<Rightarrow> nat
     \<Rightarrow> cfloat list option" where
  "velvia_body d strength ch ivoid out k =
     (if ch * k + 2 < length ivoid \<and> ch * k + 2 < length out
      then (case velvia_pixel d strength (ivoid ! (ch * k)) (ivoid ! (ch * k + 1))
                   (ivoid ! (ch * k + 2)) of
              (o0, o1, o2) \<Rightarrow> Some (out[ch * k := o0, ch * k + 1 := o1, ch * k + 2 := o2]))
      else None)"

text \<open>
  The loop \<open>for(k = 0; k < n; k++)\<close>, by recursion on the number of iterations done:
  \<open>velvia_loop \<dots> n\<close> is the output buffer after the iterations \<open>0, \<dots>, n - 1\<close>.
\<close>

primrec velvia_loop ::
  "dt_iop_velvia_data_t \<Rightarrow> cfloat \<Rightarrow> nat \<Rightarrow> cfloat list \<Rightarrow> cfloat list \<Rightarrow> nat
     \<Rightarrow> cfloat list option" where
  "velvia_loop d strength ch ivoid ovoid 0 = Some ovoid"
| "velvia_loop d strength ch ivoid ovoid (Suc k) =
     (case velvia_loop d strength ch ivoid ovoid k of
        None \<Rightarrow> None
      | Some out \<Rightarrow> velvia_body d strength ch ivoid out k)"

text \<open>
  Modelled from the spec: \<open>dt_iop_image_copy_by_size(out, in, width, height, ch)\<close> is
  declared in \<open>common/imagebuf.h\<close>, outside the sources at hand. By the spec the executor
  degenerates to an exact copy: the first \<open>width * height * ch\<close> floats of the input are
  copied to the output.
\<close>

definition dt_iop_image_copy_by_size ::
  "cfloat list \<Rightarrow> cfloat list \<Rightarrow> nat \<Rightarrow> nat \<Rightarrow> nat \<Rightarrow> cfloat list option" where
  "dt_iop_image_copy_by_size out inp w h ch =
     (if w * h * ch \<le> length inp \<and> w * h * ch \<le> length out
      then Some (take (w * h * ch) inp @ drop (w * h * ch) out)
      else None)"

text \<open>
  Modelled from the spec: \<open>dt_iop_alpha_copy(ivoid, ovoid, width, height)\<close> is declared
  outside the sources at hand. By the spec the 4th (alpha/mask) channel is copied
  verbatim from input to output: for each of the \<open>width * height\<close> pixels of a 4-channel
  buffer, the float at offset 3 of the pixel.
\<close>

primrec alpha_copy_loop :: "cfloat list \<Rightarrow> cfloat list \<Rightarrow> nat \<Rightarrow> cfloat list option" where
  "alpha_copy_loop ivoid ovoid 0 = Some ovoid"
| "alpha_copy_loop ivoid ovoid (Suc j) =
     (case alpha_copy_loop ivoid ovoid j of
        None \<Rightarrow> None
      | Some out \<Rightarrow>
          if 4 * j + 3 < length ivoid \<and> 4 * j + 3 < length out
          then Some (out[4 * j + 3 := ivoid ! (4 * j + 3)])
          else None)"

definition dt_iop_alpha_copy ::
  "cfloat list \<Rightarrow> cfloat list \<Rightarrow> nat \<Rightarrow> nat \<Rightarrow> cfloat list option" where
  "dt_iop_alpha_copy ivoid ovoid w h = alpha_copy_loop ivoid ovoid (w * h)"

text \<open>
  \<open>process(self, piece, ivoid, ovoid, roi_in, roi_out)\<close>: the result is the contents of
  the output buffer after the call. \<open>self\<close> is not used by the body and is left out.
\<close>

definition process ::
  "dt_dev_pixelpipe_iop_t \<Rightarrow> cfloat list \<Rightarrow> cfloat list \<Rightarrow> dt_iop_roi_t \<Rightarrow> dt_iop_roi_t
     \<Rightarrow> cfloat list option" where
  "process piece ivoid ovoid roi_in roi_out =
     (let d = data piece;
          ch = colors piece;
          strength = d_strength d / 100
      in case (if strength \<le> 0
               then dt_iop_image_copy_by_size ovoid ivoid (width roi_out) (height roi_out) ch
               else velvia_loop d strength ch ivoid ovoid (width roi_out * height roi_out)) of
           None \<Rightarrow> None
         | Some out \<Rightarrow>
             if mask_display (pipe piece) AND DT_DEV_PIXELPIPE_DISPLAY_MASK \<noteq> 0
             then dt_iop_alpha_copy ivoid out (width roi_out) (height roi_out)
             else Some out)"

text \<open>
  What \<open>process\<close> leaves in the three colour channels of a pixel, as a function of the
  working data and of the pixel's own three input channels: the input itself on the copy
  branch, the values of the loop body otherwise.
\<close>

definition process_pixel ::
  "dt_iop_velvia_data_t \<Rightarrow> cfloat \<Rightarrow> cfloat \<Rightarrow> cfloat \<Rightarrow> cfloat \<times> cfloat \<times> cfloat" where
  "process_pixel d in0 in1 in2 =
     (if d_strength d / 100 \<le> 0 then (in0, in1, in2)
      else velvia_pixel d (d_strength d / 100) in0 in1 in2)"

definition pixel_channel :: "nat \<Rightarrow> cfloat \<times> cfloat \<times> cfloat \<Rightarrow> cfloat" where
  "pixel_channel c p =
     (case p of (o0, o1, o2) \<Rightarrow> if c = 0 then o0 else if c = 1 then o1 else o2)"

text \<open>
  The value the loop body computes for the float at index \<open>i\<close> of the output buffer:
  channel \<open>i mod ch\<close> of the transform of pixel \<open>i div ch\<close> of the input.
\<close>

definition velvia_at ::
  "dt_iop_velvia_data_t \<Rightarrow> cfloat \<Rightarrow> nat \<Rightarrow> cfloat list \<Rightarrow> nat \<Rightarrow> cfloat" where
  "velvia_at d strength ch ivoid i =
     pixel_channel (i mod ch)
       (velvia_pixel d strength (ivoid ! (ch * (i div ch))) (ivoid ! (ch * (i div ch) + 1))
          (ivoid ! (ch * (i div ch) + 2)))"

section \<open>src/iop/velvia.c: the accelerator path\<close>

text \<open>
  \<open>process_cl\<close> only talks to the OpenCL runtime, which is outside the sources at hand,
  as is the kernel \<open>velvia\<close> of \<open>extended.cl\<close> that it dispatches. The model records the
  calls \<open>process_cl\<close> makes, in order, and its return value. The runtime is a parameter:
  the error code each enqueue call returns, and the macros \<open>ROUNDUPWD\<close>, \<open>ROUNDUPHT\<close>
  that pad the work sizes.
\<close>

type_synonym cl_mem = nat

datatype cl_arg = Arg_mem cl_mem | Arg_int int | Arg_float cfloat

datatype cl_call =
    Enqueue_copy_image int cl_mem cl_mem "nat \<times> nat \<times> nat" "nat \<times> nat \<times> nat" "nat \<times> nat \<times> nat"
  | Set_kernel_arg int int nat cl_arg
  | Enqueue_kernel_2d int int "nat \<times> nat \<times> nat"
  | Dt_print int

record cl_runtime =
  ROUNDUPWD :: "nat \<Rightarrow> nat"
  ROUNDUPHT :: "nat \<Rightarrow> nat"
  cl_result :: "cl_call \<Rightarrow> int"

definition CL_SUCCESS :: int where
  "CL_SUCCESS = 0"

record dt_iop_velvia_global_data_t =
  kernel_velvia :: int

definition process_cl ::
  "cl_runtime \<Rightarrow> dt_iop_velvia_global_data_t \<Rightarrow> dt_dev_pixelpipe_iop_t \<Rightarrow> cl_mem \<Rightarrow> cl_mem
     \<Rightarrow> dt_iop_roi_t \<Rightarrow> dt_iop_roi_t \<Rightarrow> bool \<times> cl_call list" where
  "process_cl rt gd piece dev_in dev_out roi_in roi_out =
     (let d = data piece;
          dev = devid (pipe piece);
          w = width roi_in;
          h = height roi_in;
          strength = d_strength d / 100;
          bias = d_bias d;
          sizes = (ROUNDUPWD rt w, ROUNDUPHT rt h, 1)
      in if strength \<le> 0
         then (let origin = (0, 0, 0);
                   region = (w, h, 1);
                   c = Enqueue_copy_image dev dev_in dev_out origin origin region;
                   err = cl_result rt c
               in if err \<noteq> CL_SUCCESS then (False, [c, Dt_print err]) else (True, [c]))
         else (let args =
                     [Set_kernel_arg dev (kernel_velvia gd) 0 (Arg_mem dev_in),
                      Set_kernel_arg dev (kernel_velvia gd) 1 (Arg_mem dev_out),
                      Set_kernel_arg dev (kernel_velvia gd) 2 (Arg_int (int w)),
                      Set_kernel_arg dev (kernel_velvia gd) 3 (Arg_int (int h)),
                      Set_kernel_arg dev (kernel_velvia gd) 4 (Arg_float strength),
                      Set_kernel_arg dev (kernel_velvia gd) 5 (Arg_float bias)];
                   c = Enqueue_kernel_2d dev (kernel_velvia gd) sizes;
                   err = cl_result rt c
               in if err \<noteq> CL_SUCCESS then (False, args @ [c, Dt_print err])
                  else (True, args @ [c])))"

section \<open>Regions and tiles\<close>




section \<open>src/common/imageio_dng.h: big-endian fields\<close>

text \<open>
  \<open>dt_imageio_dng_write_buf(buf, adr, val)\<close>. \<open>val\<close> is a C \<open>int\<close>, a 32-bit word on
  which \<open>>>\<close> shifts arithmetically; each right-hand side is truncated to the \<open>uint8_t\<close>
  it is stored in. The buffer is a list of bytes; a store outside it is undefined
  behaviour and \<open>None\<close> in the model. The statements of the source run from \<open>buf[adr + 3]\<close>
  to \<open>buf[adr]\<close>, as the updates do.
\<close>

definition dt_imageio_dng_write_buf :: "8 word list \<Rightarrow> int \<Rightarrow> 32 word \<Rightarrow> 8 word list option"
  where
  "dt_imageio_dng_write_buf buf adr val =
     (if 0 \<le> adr \<and> adr + 3 < int (length buf)
      then Some (buf[nat (adr + 3) := ucast (val AND 0xff),
                     nat (adr + 2) := ucast (signed_drop_bit 8 val AND 0xff),
                     nat (adr + 1) := ucast (signed_drop_bit 16 val AND 0xff),
                     nat adr := ucast (signed_drop_bit 24 val)])
      else None)"

text \<open>
  The recomposition of a 32-bit field from the four bytes at \<open>adr\<close>, most significant
  byte first: \<open>(buf[adr] << 24) + (buf[adr+1] << 16) + (buf[adr+2] << 8) + buf[adr+3]\<close>
  in 32-bit arithmetic. It is the reader's side of the format, not a function of the
  source.
\<close>

definition read_be32 :: "8 word list \<Rightarrow> int \<Rightarrow> 32 word" where
  "read_be32 buf adr =
     push_bit 24 (ucast (buf ! nat adr)) + push_bit 16 (ucast (buf ! nat (adr + 1)))
       + push_bit 8 (ucast (buf ! nat (adr + 2))) + ucast (buf ! nat (adr + 3))"

text \<open>
  \<open>dt_imageio_dng_make_tag(tag, type, lng, fld, b, cnt)\<close>: the pointer \<open>b\<close> into the
  header buffer is the buffer with the offset \<open>b\<close> in it; the result is the buffer, the
  returned pointer \<open>b + 12\<close> and the incremented entry count \<open>*cnt\<close>.
\<close>

definition dt_imageio_dng_make_tag ::
  "16 word \<Rightarrow> 16 word \<Rightarrow> 32 word \<Rightarrow> 32 word \<Rightarrow> 8 word list \<Rightarrow> int \<Rightarrow> 8 word
     \<Rightarrow> (8 word list \<times> int \<times> 8 word) option" where
  "dt_imageio_dng_make_tag tag type lng fld buf b cnt =
     (case dt_imageio_dng_write_buf buf (b + 0) (push_bit 16 (ucast tag) OR ucast type) of
        None \<Rightarrow> None
      | Some buf1 \<Rightarrow>
          (case dt_imageio_dng_write_buf buf1 (b + 4) lng of
             None \<Rightarrow> None
           | Some buf2 \<Rightarrow>
               (case dt_imageio_dng_write_buf buf2 (b + 8) fld of
                  None \<Rightarrow> None
                | Some buf3 \<Rightarrow> Some (buf3, b + 12, cnt + 1))))"

text \<open>
  The first statements of \<open>dt_imageio_dng_write_tiff_header\<close>: the 1024-byte buffer is
  cleared and the TIFF file header is stored in its first eight bytes.
\<close>

definition tiff_file_header :: "8 word list" where
  "tiff_file_header = (replicate 1024 0)[0 := 0x4d, 1 := 0x4d, 3 := 42, 7 := 10]"

section \<open>src/tests/benchmark/darktable-bench: reading the timings\<close>

text \<open>
  Python strings are lists of characters. \<open>py_find s sub\<close> is \<open>s.find(sub)\<close>, the lowest
  index at which \<open>sub\<close> occurs in \<open>s\<close>, or -1; \<open>py_in sub s\<close> is \<open>sub in s\<close>.
\<close>

fun startswith :: "string \<Rightarrow> string \<Rightarrow> bool" where
  "startswith s [] = True"
| "startswith [] (c # cs) = False"
| "startswith (x # xs) (c # cs) = (x = c \<and> startswith xs cs)"

fun find_from :: "string \<Rightarrow> string \<Rightarrow> int \<Rightarrow> int" where
  "find_from [] sub i = (if sub = [] then i else - 1)"
| "find_from (x # xs) sub i =
     (if startswith (x # xs) sub then i else find_from xs sub (i + 1))"

definition py_find :: "string \<Rightarrow> string \<Rightarrow> int" where
  "py_find s sub = find_from s sub 0"

definition py_in :: "string \<Rightarrow> string \<Rightarrow> bool" where
  "py_in sub s \<longleftrightarrow> py_find s sub \<noteq> - 1"

datatype py_error = ValueError

text \<open>
  \<open>extract_seconds(line)\<close>. The Python built-ins are a parameter: \<open>float_strip s\<close> is
  \<open>float(s.strip())\<close>, \<open>None\<close> when \<open>float\<close> raises \<open>ValueError\<close>. The slices \<open>line[pos+4:]\<close>
  and \<open>line[:pos]\<close>, with \<open>pos > 0\<close>, are \<open>drop\<close> and \<open>take\<close>.
\<close>

definition extract_seconds :: "(string \<Rightarrow> real option) \<Rightarrow> string \<Rightarrow> py_error + real" where
  "extract_seconds float_strip line =
     (let pos = py_find line ''took''
      in if pos > 0
         then (let line1 = drop (nat (pos + 4)) line;
                   pos1 = py_find line1 ''sec''
               in if pos1 > 0
                  then (case float_strip (take (nat pos1) line1) of
                          None \<Rightarrow> Inl ValueError
                        | Some v \<Rightarrow> Inr v)
                  else Inr 0)
         else Inr 0)"

text \<open>The locals of \<open>run_benchmark\<close> that the loop over the trace updates.\<close>

record bench_times =
  loadtime :: real
  savetime :: real
  pixpipe :: real
  gpu :: bool

text \<open>One iteration of \<open>for t in trace\<close>.\<close>

definition trace_step ::
  "(string \<Rightarrow> real option) \<Rightarrow> bench_times \<Rightarrow> string \<Rightarrow> py_error + bench_times" where
  "trace_step float_strip s t =
     (let s1 = (if py_in ''GPU'' t then s\<lparr>gpu := True\<rparr> else s)
      in if py_in ''to load the image'' t
         then (case extract_seconds float_strip t of
                 Inl e \<Rightarrow> Inl e | Inr v \<Rightarrow> Inr (s1\<lparr>loadtime := v\<rparr>))
         else if py_in ''to save the image'' t
         then (case extract_seconds float_strip t of
                 Inl e \<Rightarrow> Inl e | Inr v \<Rightarrow> Inr (s1\<lparr>savetime := v\<rparr>))
         else if py_in ''pipeline processing took'' t
         then (case extract_seconds float_strip t of
                 Inl e \<Rightarrow> Inl e | Inr v \<Rightarrow> Inr (s1\<lparr>pixpipe := v\<rparr>))
         else Inr s1)"

fun trace_loop ::
  "(string \<Rightarrow> real option) \<Rightarrow> bench_times \<Rightarrow> string list \<Rightarrow> py_error + bench_times" where
  "trace_loop float_strip s [] = Inr s"
| "trace_loop float_strip s (t # ts) =
     (case trace_step float_strip s t of
        Inl e \<Rightarrow> Inl e
      | Inr s' \<Rightarrow> trace_loop float_strip s' ts)"

text \<open>The values of the locals before the loop, and the save time after the loop.\<close>

definition bench_init :: bench_times where
  "bench_init = \<lparr> loadtime = 0, savetime = - 1, pixpipe = 0, gpu = False \<rparr>"

definition final_savetime :: "bench_times \<Rightarrow> real" where
  "final_savetime s = (if savetime s < 0 then loadtime s else savetime s)"

text \<open>
  \<open>run_benchmark(program, image, xmp, args)\<close> from the point where the diagnostic
  output of the launched process has been decoded and split into the lines \<open>trace\<close>; the
  launch itself is outside the model. The result is the returned triple
  \<open>(pixpipe, loadtime + pixpipe + savetime, gpu)\<close>, or the exception that left the loop.
\<close>

definition run_benchmark ::
  "(string \<Rightarrow> real option) \<Rightarrow> string list \<Rightarrow> py_error + (real \<times> real \<times> bool)" where
  "run_benchmark float_strip trace =
     (case trace_loop float_strip bench_init trace of
        Inl e \<Rightarrow> Inl e
      | Inr s \<Rightarrow> Inr (pixpipe s, loadtime s + pixpipe s + final_savetime s, gpu s))"

section \<open>The loops of \<open>process\<close>, index by index\<close>

text \<open>
  With at least three floats per pixel the writes of different iterations do not overlap,
  and each loop is characterised by the value it leaves at every index of the output.
\<close>

lemma idx_mod: "c < ch \<Longrightarrow> (ch * k + c) mod ch = (c::nat)"
  by simp

lemma idx_div: "c < ch \<Longrightarrow> (ch * k + c) div ch = (k::nat)"
  by simp

lemma idx_cases:
  assumes "3 \<le> (ch::nat)"
  shows "(i = ch * k \<or> i = ch * k + 1 \<or> i = ch * k + 2) \<longleftrightarrow> (i div ch = k \<and> i mod ch < 3)"
proof
  assume "i = ch * k \<or> i = ch * k + 1 \<or> i = ch * k + 2"
  then obtain c where c: "c < 3" "i = ch * k + c"
  proof (elim disjE)
    assume "i = ch * k" then show ?thesis using that [of 0] by simp
  next
    assume "i = ch * k + 1" then show ?thesis using that [of 1] by simp
  next
    assume "i = ch * k + 2" then show ?thesis using that [of 2] by simp
  qed
  with assms have "c < ch" by simp
  with c show "i div ch = k \<and> i mod ch < 3" by (simp add: idx_mod idx_div)
next
  assume a: "i div ch = k \<and> i mod ch < 3"
  have "i = ch * (i div ch) + i mod ch" by simp
  with a have "i = ch * k + i mod ch" by simp
  moreover from a have "i mod ch = 0 \<or> i mod ch = 1 \<or> i mod ch = 2" by linarith
  ultimately show "i = ch * k \<or> i = ch * k + 1 \<or> i = ch * k + 2" by auto
qed

lemma velvia_body_nth:
  assumes "velvia_body d s ch ivoid out k = Some out'" "3 \<le> ch"
  shows "length out' = length out \<and>
         (\<forall>i. out' ! i = (if i div ch = k \<and> i mod ch < 3 then velvia_at d s ch ivoid i else out ! i))"
proof -
  obtain o0 o1 o2 where p: "velvia_pixel d s (ivoid ! (ch * k)) (ivoid ! (ch * k + 1)) (ivoid ! (ch * k + 2)) = (o0, o1, o2)"
    by (metis prod_cases3)
  from assms(1) p have b: "ch * k + 2 < length out"
    and o: "out' = out[ch * k := o0, ch * k + 1 := o1, ch * k + 2 := o2]"
    by (auto simp: velvia_body_def split: if_splits)
  have len: "length out' = length out" using o by simp
  have "out' ! i = (if i div ch = k \<and> i mod ch < 3 then velvia_at d s ch ivoid i else out ! i)" for i
  proof (cases "i div ch = k \<and> i mod ch < 3")
    case True
    then have i: "i = ch * k \<or> i = ch * k + 1 \<or> i = ch * k + 2"
      using idx_cases [OF assms(2), of i k] by simp
    from True have dv: "i div ch = k" by simp
    have c1: "1 < ch" and c2: "2 < ch" using assms(2) by simp_all
    have m1: "(ch * k + 1) mod ch = 1" "(ch * k + 1) div ch = k"
      by (rule idx_mod [OF c1], rule idx_div [OF c1])
    have m2: "(ch * k + 2) mod ch = 2" "(ch * k + 2) div ch = k"
      by (rule idx_mod [OF c2], rule idx_div [OF c2])
    from i show ?thesis
    proof (elim disjE)
      assume e: "i = ch * k"
      with b p assms(2) show ?thesis by (simp add: o velvia_at_def pixel_channel_def)
    next
      assume e: "i = ch * k + 1"
      with b p m1 show ?thesis by (simp add: o velvia_at_def pixel_channel_def del: One_nat_def)
    next
      assume e: "i = ch * k + 2"
      with b p m2 show ?thesis by (simp add: o velvia_at_def pixel_channel_def)
    qed
  next
    case False
    then have "i \<noteq> ch * k" "i \<noteq> ch * k + 1" "i \<noteq> ch * k + 2"
      using idx_cases [OF assms(2), of i k] by auto
    with False show ?thesis by (auto simp: o)
  qed
  with len show ?thesis by blast
qed

lemma velvia_loop_nth:
  assumes "3 \<le> ch"
  shows "velvia_loop d s ch ivoid ovoid n = Some out \<Longrightarrow>
         length out = length ovoid \<and>
         (\<forall>i. out ! i = (if i div ch < n \<and> i mod ch < 3 then velvia_at d s ch ivoid i else ovoid ! i))"
proof (induction n arbitrary: out)
  case 0
  then show ?case by simp
next
  case (Suc n)
  from Suc.prems obtain mid where m: "velvia_loop d s ch ivoid ovoid n = Some mid"
    and b: "velvia_body d s ch ivoid mid n = Some out"
    by (auto split: option.splits)
  from Suc.IH [OF m] have l: "length mid = length ovoid"
    and ih: "\<And>i. mid ! i = (if i div ch < n \<and> i mod ch < 3 then velvia_at d s ch ivoid i else ovoid ! i)"
    by auto
  from velvia_body_nth [OF b assms] have l': "length out = length mid"
    and st: "\<And>i. out ! i = (if i div ch = n \<and> i mod ch < 3 then velvia_at d s ch ivoid i else mid ! i)"
    by auto
  have "out ! i = (if i div ch < Suc n \<and> i mod ch < 3 then velvia_at d s ch ivoid i else ovoid ! i)" for i
    by (simp add: st ih less_Suc_eq)
  with l l' show ?case by simp
qed

lemma velvia_loop_Some:
  assumes "3 \<le> ch" "ch * n \<le> length ivoid" "ch * n \<le> length ovoid"
  shows "\<exists>out. velvia_loop d s ch ivoid ovoid n = Some out"
  using assms(2,3)
proof (induction n)
  case 0
  then show ?case by simp
next
  case (Suc n)
  then obtain mid where m: "velvia_loop d s ch ivoid ovoid n = Some mid" by auto
  from velvia_loop_nth [OF assms(1) m] have l: "length mid = length ovoid" by simp
  from Suc.prems assms(1) have "ch * n + 2 < length ivoid" "ch * n + 2 < length ovoid" by auto
  with l m show ?case by (auto simp: velvia_body_def split: prod.splits)
qed

lemma alpha_copy_loop_nth:
  "alpha_copy_loop ivoid ovoid n = Some out \<Longrightarrow>
   length out = length ovoid \<and>
   (\<forall>i. out ! i = (if i div 4 < n \<and> i mod 4 = 3 then ivoid ! i else ovoid ! i))"
proof (induction n arbitrary: out)
  case 0
  then show ?case by simp
next
  case (Suc n)
  from Suc.prems obtain mid where m: "alpha_copy_loop ivoid ovoid n = Some mid"
    and b: "4 * n + 3 < length mid" and o: "out = mid[4 * n + 3 := ivoid ! (4 * n + 3)]"
    by (auto split: option.splits if_splits)
  from Suc.IH [OF m] have l: "length mid = length ovoid"
    and ih: "\<And>i. mid ! i = (if i div 4 < n \<and> i mod 4 = 3 then ivoid ! i else ovoid ! i)"
    by auto
  have "out ! i = (if i div 4 < Suc n \<and> i mod 4 = 3 then ivoid ! i else ovoid ! i)" for i
  proof (cases "i = 4 * n + 3")
    case True
    with b show ?thesis by (simp add: o)
  next
    case False
    then have "\<not> (i div 4 = n \<and> i mod 4 = 3)" by presburger
    with False show ?thesis by (auto simp: o ih less_Suc_eq)
  qed
  with l o show ?case by simp
qed

lemma alpha_copy_loop_Some:
  assumes "4 * n \<le> length ivoid" "4 * n \<le> length ovoid"
  shows "\<exists>out. alpha_copy_loop ivoid ovoid n = Some out"
  using assms
proof (induction n)
  case 0
  then show ?case by simp
next
  case (Suc n)
  then obtain mid where m: "alpha_copy_loop ivoid ovoid n = Some mid" by auto
  from alpha_copy_loop_nth [OF m] have "length mid = length ovoid" by simp
  with Suc.prems m show ?case by auto
qed


lemma copy_by_size_nth:
  assumes "dt_iop_image_copy_by_size ovoid ivoid w h ch = Some out"
  shows "length out = length ovoid \<and>
         (\<forall>i<length ovoid. out ! i = (if i < w * h * ch then ivoid ! i else ovoid ! i))"
proof -
  from assms have b: "w * h * ch \<le> length ivoid" "w * h * ch \<le> length ovoid"
    and o: "out = take (w * h * ch) ivoid @ drop (w * h * ch) ovoid"
    by (auto simp: dt_iop_image_copy_by_size_def split: if_splits)
  from b have len: "length out = length ovoid" by (simp add: o)
  have "out ! i = (if i < w * h * ch then ivoid ! i else ovoid ! i)" if "i < length ovoid" for i
    using b that by (simp add: o nth_append)
  with len show ?thesis by blast
qed

lemma process_stages:
  assumes "process piece ivoid ovoid roi_in roi_out = Some out" and "colors piece = 4"
  obtains mid where
    "(if d_strength (data piece) / 100 \<le> 0
      then dt_iop_image_copy_by_size ovoid ivoid (width roi_out) (height roi_out) 4
      else velvia_loop (data piece) (d_strength (data piece) / 100) 4 ivoid ovoid
             (width roi_out * height roi_out)) = Some mid"
    and "(if mask_display (pipe piece) AND DT_DEV_PIXELPIPE_DISPLAY_MASK \<noteq> 0
          then dt_iop_alpha_copy ivoid mid (width roi_out) (height roi_out)
          else Some mid) = Some out"
  using assms by (auto simp: process_def Let_def split: option.splits)

lemma process_length:
  assumes p: "process piece ivoid ovoid roi_in roi_out = Some out"
    and c: "colors piece = 4"
  shows "length out = length ovoid"
proof -
  let ?n = "width roi_out * height roi_out"
  let ?s = "d_strength (data piece) / 100"
  from process_stages [OF p c] obtain mid where
    m: "(if ?s \<le> 0
         then dt_iop_image_copy_by_size ovoid ivoid (width roi_out) (height roi_out) 4
         else velvia_loop (data piece) ?s 4 ivoid ovoid ?n) = Some mid"
    and f: "(if mask_display (pipe piece) AND DT_DEV_PIXELPIPE_DISPLAY_MASK \<noteq> 0
             then dt_iop_alpha_copy ivoid mid (width roi_out) (height roi_out)
             else Some mid) = Some out"
    by blast
  have "length mid = length ovoid"
    using m copy_by_size_nth [of ovoid ivoid "width roi_out" "height roi_out" 4 mid]
      velvia_loop_nth [of 4 "data piece" ?s ivoid ovoid ?n mid]
    by (auto split: if_splits)
  then show ?thesis
    using f alpha_copy_loop_nth [of ivoid mid ?n out]
    by (auto simp: dt_iop_alpha_copy_def split: if_splits)
qed

lemma process_nth:
  assumes p: "process piece ivoid ovoid roi_in roi_out = Some out"
    and c: "colors piece = 4"
    and i: "i < length ovoid"
  shows "out ! i =
     (if d_strength (data piece) / 100 \<le> 0
      then (if i < 4 * (width roi_out * height roi_out) then ivoid ! i else ovoid ! i)
      else if i div 4 < width roi_out * height roi_out \<and> i mod 4 < 3
        then velvia_at (data piece) (d_strength (data piece) / 100) 4 ivoid i
      else if mask_display (pipe piece) AND DT_DEV_PIXELPIPE_DISPLAY_MASK \<noteq> 0
              \<and> i div 4 < width roi_out * height roi_out
        then ivoid ! i else ovoid ! i)"
proof -
  let ?n = "width roi_out * height roi_out"
  let ?s = "d_strength (data piece) / 100"
  let ?flag = "mask_display (pipe piece) AND DT_DEV_PIXELPIPE_DISPLAY_MASK \<noteq> 0"
  from process_stages [OF p c] obtain mid where
    m: "(if ?s \<le> 0
         then dt_iop_image_copy_by_size ovoid ivoid (width roi_out) (height roi_out) 4
         else velvia_loop (data piece) ?s 4 ivoid ovoid ?n) = Some mid"
    and f: "(if ?flag then dt_iop_alpha_copy ivoid mid (width roi_out) (height roi_out)
             else Some mid) = Some out"
    by blast
  have mn: "mid ! i =
       (if ?s \<le> 0 then (if i < 4 * ?n then ivoid ! i else ovoid ! i)
        else if i div 4 < ?n \<and> i mod 4 < 3 then velvia_at (data piece) ?s 4 ivoid i
        else ovoid ! i)"
  proof (cases "?s \<le> 0")
    case True
    with m have "dt_iop_image_copy_by_size ovoid ivoid (width roi_out) (height roi_out) 4 = Some mid"
      by simp
    from copy_by_size_nth [OF this] i True show ?thesis by (simp add: mult.commute)
  next
    case False
    with m have "velvia_loop (data piece) ?s 4 ivoid ovoid ?n = Some mid" by simp
    from velvia_loop_nth [OF _ this] False show ?thesis by simp
  qed
  show ?thesis
  proof (cases ?flag)
    case False
    with f have "out = mid" by simp
    with False mn show ?thesis by simp
  next
    case True
    with f have "alpha_copy_loop ivoid mid ?n = Some out" by (simp add: dt_iop_alpha_copy_def)
    from alpha_copy_loop_nth [OF this]
    have on: "out ! i = (if i div 4 < ?n \<and> i mod 4 = 3 then ivoid ! i else mid ! i)" by simp
    have dm: "i div 4 < ?n \<longleftrightarrow> i < 4 * ?n" by presburger
    have m3: "i mod 4 < 3 \<or> i mod 4 = 3" by presburger
    from True show ?thesis unfolding on mn using dm m3 by auto
  qed
qed

lemma process_Some:
  assumes c: "colors piece = 4"
    and "4 * (width roi_out * height roi_out) \<le> length ivoid"
    and "4 * (width roi_out * height roi_out) \<le> length ovoid"
  shows "\<exists>out. process piece ivoid ovoid roi_in roi_out = Some out"
proof -
  let ?n = "width roi_out * height roi_out"
  let ?s = "d_strength (data piece) / 100"
  let ?col = "if ?s \<le> 0
      then dt_iop_image_copy_by_size ovoid ivoid (width roi_out) (height roi_out) 4
      else velvia_loop (data piece) ?s 4 ivoid ovoid ?n"
  have "\<exists>mid. ?col = Some mid"
  proof (cases "?s \<le> 0")
    case True
    with assms show ?thesis by (simp add: dt_iop_image_copy_by_size_def mult.commute)
  next
    case False
    with velvia_loop_Some [of 4 ?n ivoid ovoid "data piece" ?s] assms show ?thesis by simp
  qed
  then obtain mid where m: "?col = Some mid" ..
  have "length mid = length ovoid"
    using m copy_by_size_nth [of ovoid ivoid "width roi_out" "height roi_out" 4 mid]
      velvia_loop_nth [of 4 "data piece" ?s ivoid ovoid ?n mid]
    by (auto split: if_splits)
  with assms alpha_copy_loop_Some [of ?n ivoid mid]
  obtain fin where "alpha_copy_loop ivoid mid ?n = Some fin" by auto
  with m c show ?thesis by (simp add: process_def Let_def dt_iop_alpha_copy_def)
qed

section \<open>Auxiliary facts\<close>

lemma CLAMPS_unit: "0 \<le> CLAMPS a 0 1 \<and> CLAMPS a 0 1 \<le> 1"
  by (simp add: CLAMPS_def)

lemma velvia_pixel_unit:
  "0 \<le> pixel_channel c (velvia_pixel d s a b e) \<and> pixel_channel c (velvia_pixel d s a b e) \<le> 1"
  by (simp add: velvia_pixel_def pixel_channel_def Let_def CLAMPS_unit)


lemma all_less_3: "(\<forall>c<(3::nat). P c) \<longleftrightarrow> P 0 \<and> P 1 \<and> P 2"
proof -
  have "c < 3 \<longleftrightarrow> c = 0 \<or> c = 1 \<or> c = 2" for c :: nat by auto
  then show ?thesis by auto
qed


lemma all_less_2: "(\<forall>c<(2::nat). P c) \<longleftrightarrow> P 0 \<and> P 1"
proof -
  have "c < 2 \<longleftrightarrow> c = 0 \<or> c = 1" for c :: nat by auto
  then show ?thesis by auto
qed

lemma velvia_at_pixel:
  assumes "c < 3"
  shows "velvia_at d s 4 buf (4 * k + c) =
           pixel_channel c (velvia_pixel d s (buf ! (4 * k)) (buf ! (4 * k + 1)) (buf ! (4 * k + 2)))"
proof -
  from assms have c4: "c < 4" by simp
  show ?thesis by (simp only: velvia_at_def idx_div [OF c4] idx_mod [OF c4])
qed

lemma process_color_nth:
  assumes p: "process piece ivoid ovoid roi_in roi_out = Some out"
    and ch: "colors piece = 4"
    and sz: "4 * (width roi_out * height roi_out) \<le> length ovoid"
    and k: "k < width roi_out * height roi_out"
    and c: "c < 3"
  shows "out ! (4 * k + c) =
           pixel_channel c (process_pixel (data piece) (ivoid ! (4 * k)) (ivoid ! (4 * k + 1))
                              (ivoid ! (4 * k + 2)))"
proof -
  from c have c4: "c < 4" by simp
  have dv: "(4 * k + c) div 4 = k" and md: "(4 * k + c) mod 4 = c"
    by (rule idx_div [OF c4], rule idx_mod [OF c4])
  from k c have lt: "4 * k + c < 4 * (width roi_out * height roi_out)" by simp
  with sz have i: "4 * k + c < length ovoid" by simp
  show ?thesis
  proof (cases "d_strength (data piece) / 100 \<le> 0")
    case True
    with process_nth [OF p ch i] lt
    have "out ! (4 * k + c) = ivoid ! (4 * k + c)" by simp
    moreover from c have "c = 0 \<or> c = 1 \<or> c = 2" by auto
    ultimately show ?thesis using True
      by (auto simp: process_pixel_def pixel_channel_def)
  next
    case False
    with process_nth [OF p ch i] k c dv md
    have "out ! (4 * k + c) =
            velvia_at (data piece) (d_strength (data piece) / 100) 4 ivoid (4 * k + c)"
      by simp
    with False show ?thesis by (simp add: velvia_at_pixel [OF c] process_pixel_def)
  qed
qed

lemma process_alpha_nth:
  assumes p: "process piece ivoid ovoid roi_in roi_out = Some out"
    and ch: "colors piece = 4"
    and sz: "4 * (width roi_out * height roi_out) \<le> length ovoid"
    and k: "k < width roi_out * height roi_out"
  shows "out ! (4 * k + 3) =
           (if d_strength (data piece) / 100 \<le> 0
               \<or> mask_display (pipe piece) AND DT_DEV_PIXELPIPE_DISPLAY_MASK \<noteq> 0
            then ivoid ! (4 * k + 3) else ovoid ! (4 * k + 3))"
proof -
  have dv: "(4 * k + 3) div 4 = k" and md: "(4 * k + 3) mod 4 = 3"
    by (rule idx_div, simp, rule idx_mod, simp)
  from k have lt: "4 * k + 3 < 4 * (width roi_out * height roi_out)" by simp
  with sz have i: "4 * k + 3 < length ovoid" by simp
  from process_nth [OF p ch i] lt k show ?thesis by (simp only: dv md) simp
qed

lemma mask8: "(0xff :: 32 word) = mask 8"
  by (simp add: mask_eq_exp_minus_1)

lemma byte3: "(ucast (ucast (signed_drop_bit 24 (v::32 word)) :: 8 word) :: 32 word) = drop_bit 24 v"
  by (rule bit_word_eqI) (auto simp: bit_simps dest: bit_imp_le_length)

lemma byte2: "take_bit 8 (signed_drop_bit 16 (v::32 word)) = take_bit 8 (drop_bit 16 v)"
  by (rule bit_word_eqI) (auto simp: bit_simps)

lemma byte1: "take_bit 8 (signed_drop_bit 8 (v::32 word)) = take_bit 8 (drop_bit 8 v)"
  by (rule bit_word_eqI) (auto simp: bit_simps)

lemma byte0: "(ucast (ucast ((v::32 word) AND 0xff) :: 8 word) :: 32 word) = take_bit 8 v"
  unfolding mask8 by (rule bit_word_eqI) (auto simp: bit_simps)

lemma be32_split:
  "push_bit 24 (drop_bit 24 v) + push_bit 16 (take_bit 8 (drop_bit 16 v))
     + push_bit 8 (take_bit 8 (drop_bit 8 v)) + take_bit 8 v = (v :: 32 word)"
proof -
  have a: "push_bit 8 (take_bit 8 (drop_bit 8 v)) + take_bit 8 v = take_bit 16 v"
    using bits_ident [of 8 "take_bit 16 v"] by (simp add: drop_bit_take_bit)
  have b: "push_bit 16 (take_bit 8 (drop_bit 16 v)) + take_bit 16 v = take_bit 24 v"
    using bits_ident [of 16 "take_bit 24 v"] by (simp add: drop_bit_take_bit)
  have c: "push_bit 24 (drop_bit 24 v) + take_bit 24 v = v"
    by (rule bits_ident)
  from a b c show ?thesis by (simp add: add.assoc)
qed

lemma write_buf_Some:
  assumes "0 \<le> adr" "adr + 3 < int (length buf)"
  shows "\<exists>buf'. dt_imageio_dng_write_buf buf adr val = Some buf'"
  using assms by (simp add: dt_imageio_dng_write_buf_def)

lemma write_buf_props:
  assumes w: "dt_imageio_dng_write_buf buf adr val = Some buf'"
  shows "0 \<le> adr" "adr + 3 < int (length buf)" "length buf' = length buf"
    "read_be32 buf' adr = val"
    "\<And>j. j < nat adr \<or> nat adr + 3 < j \<Longrightarrow> buf' ! j = buf ! j"
proof -
  from w show b: "0 \<le> adr" "adr + 3 < int (length buf)"
    by (auto simp: dt_imageio_dng_write_buf_def split: if_splits)
  from w b have o: "buf' = buf[nat (adr + 3) := ucast (val AND 0xff),
                     nat (adr + 2) := ucast (signed_drop_bit 8 val AND 0xff),
                     nat (adr + 1) := ucast (signed_drop_bit 16 val AND 0xff),
                     nat adr := ucast (signed_drop_bit 24 val)]"
    by (simp add: dt_imageio_dng_write_buf_def)
  show "length buf' = length buf" by (simp add: o)
  define a where "a = nat adr"
  from b have n: "nat (adr + 1) = a + 1" "nat (adr + 2) = a + 2" "nat (adr + 3) = a + 3"
    and l: "a + 3 < length buf"
    by (simp_all add: a_def nat_add_distrib)
  have g: "buf' ! a = ucast (signed_drop_bit 24 val)"
    "buf' ! (a + 1) = ucast (signed_drop_bit 16 val AND 0xff)"
    "buf' ! (a + 2) = ucast (signed_drop_bit 8 val AND 0xff)"
    "buf' ! (a + 3) = ucast (val AND 0xff)"
    using l unfolding o n a_def [symmetric] by simp_all
  have "read_be32 buf' adr =
          push_bit 24 (ucast (buf' ! a)) + push_bit 16 (ucast (buf' ! (a + 1)))
            + push_bit 8 (ucast (buf' ! (a + 2))) + ucast (buf' ! (a + 3))"
    by (simp only: read_be32_def n a_def [symmetric])
  also have "\<dots> = push_bit 24 (drop_bit 24 val) + push_bit 16 (take_bit 8 (drop_bit 16 val))
            + push_bit 8 (take_bit 8 (drop_bit 8 val)) + take_bit 8 val"
    by (simp only: g byte3 byte0 byte2 byte1)
  also have "\<dots> = val" by (rule be32_split)
  finally show "read_be32 buf' adr = val" .
  show "buf' ! j = buf ! j" if "j < nat adr \<or> nat adr + 3 < j" for j
    using that unfolding o n a_def [symmetric] by auto
qed

lemma write_buf_other_field:
  assumes w: "dt_imageio_dng_write_buf buf adr val = Some buf'"
    and f: "0 \<le> fa" "fa + 3 < adr \<or> adr + 3 < fa"
  shows "read_be32 buf' fa = read_be32 buf fa"
proof -
  note p = write_buf_props [OF w]
  have "buf' ! nat (fa + e) = buf ! nat (fa + e)" if "0 \<le> e" "e \<le> 3" for e
    using f p(1) that by (intro p(5)) auto
  from this [of 0] this [of 1] this [of 2] this [of 3]
  show ?thesis by (simp add: read_be32_def)
qed

lemma make_tag_fields:
  assumes "0 \<le> b" and "b + 11 < int (length buf)"
  shows "\<exists>buf'. dt_imageio_dng_make_tag tag type lng fld buf b cnt = Some (buf', b + 12, cnt + 1) \<and>
           length buf' = length buf \<and>
           read_be32 buf' b = (push_bit 16 (ucast tag) OR ucast type) \<and>
           read_be32 buf' (b + 4) = lng \<and>
           read_be32 buf' (b + 8) = fld"
proof -
  let ?v = "push_bit 16 (ucast tag) OR ucast type :: 32 word"
  from assms write_buf_Some [of b buf ?v]
  obtain buf1 where w1: "dt_imageio_dng_write_buf buf b ?v = Some buf1" by auto
  note p1 = write_buf_props [OF w1]
  from assms p1(3) write_buf_Some [of "b + 4" buf1 lng]
  obtain buf2 where w2: "dt_imageio_dng_write_buf buf1 (b + 4) lng = Some buf2" by auto
  note p2 = write_buf_props [OF w2]
  from assms p1(3) p2(3) write_buf_Some [of "b + 8" buf2 fld]
  obtain buf3 where w3: "dt_imageio_dng_write_buf buf2 (b + 8) fld = Some buf3" by auto
  note p3 = write_buf_props [OF w3]
  have "read_be32 buf3 b = read_be32 buf2 b"
    using assms(1) by (intro write_buf_other_field [OF w3]) auto
  also have "\<dots> = read_be32 buf1 b"
    using assms(1) by (intro write_buf_other_field [OF w2]) auto
  finally have r1: "read_be32 buf3 b = ?v" using p1(4) by simp
  have "read_be32 buf3 (b + 4) = read_be32 buf2 (b + 4)"
    using assms(1) by (intro write_buf_other_field [OF w3]) auto
  then have r2: "read_be32 buf3 (b + 4) = lng" using p2(4) by simp
  from w1 w2 w3 have "dt_imageio_dng_make_tag tag type lng fld buf b cnt
                       = Some (buf3, b + 12, cnt + 1)"
    by (simp add: dt_imageio_dng_make_tag_def)
  with r1 r2 p3(4) p1(3) p2(3) p3(3) show ?thesis by simp
qed

lemma uint_as_sint_mod: "uint (v :: 32 word) = sint v mod 2 ^ 32"
  by (simp add: uint_sint take_bit_eq_mod)

lemma trace_step_savetime:
  assumes "\<not> py_in ''to save the image'' t" and "trace_step f s t = Inr s'"
  shows "savetime s' = savetime s"
  using assms by (auto simp: trace_step_def Let_def split: if_splits sum.splits)

lemma trace_loop_savetime:
  assumes "\<forall>t\<in>set trace. \<not> py_in ''to save the image'' t"
    and "trace_loop f s trace = Inr s'"
  shows "savetime s' = savetime s"
  using assms
proof (induction trace arbitrary: s)
  case Nil
  then show ?case by simp
next
  case (Cons t ts)
  from Cons.prems(2) obtain m where m: "trace_step f s t = Inr m"
    and r: "trace_loop f m ts = Inr s'"
    by (auto split: sum.splits)
  from Cons.prems(1) have "\<not> py_in ''to save the image'' t" by simp
  from trace_step_savetime [OF this m] have "savetime m = savetime s" .
  moreover from Cons.IH [OF _ r] Cons.prems(1) have "savetime s' = savetime m" by simp
  ultimately show ?case by simp
qed

section \<open>The general-path executor\<close>

text \<open>
  C1. When the strength is not positive after the division by 100, \<open>process\<close> on a
  4-channel buffer returns, and its output buffer is the input buffer over the
  \<open>width * height\<close> pixels of the output region, float for float, the rest of the output
  buffer being untouched; \<open>process_cl\<close> then makes one runtime call, the image copy of the
  region from origin to origin, sets no kernel argument and dispatches no kernel (on a
  failed copy it prints the error and returns FALSE).
\<close>

theorem process_nonpositive_strength_copies:
  assumes "d_strength (data piece) / 100 \<le> 0"
    and "colors piece = 4"
    and "4 * (width roi_out * height roi_out) \<le> length ivoid"
    and "4 * (width roi_out * height roi_out) \<le> length ovoid"
  shows "(\<exists>out. process piece ivoid ovoid roi_in roi_out = Some out \<and>
            out = take (4 * (width roi_out * height roi_out)) ivoid
                  @ drop (4 * (width roi_out * height roi_out)) ovoid) \<and>
         process_cl rt gd piece dev_in dev_out roi_in roi_out =
           (let c = Enqueue_copy_image (devid (pipe piece)) dev_in dev_out (0, 0, 0) (0, 0, 0)
                      (width roi_in, height roi_in, 1)
            in if cl_result rt c = CL_SUCCESS then (True, [c])
               else (False, [c, Dt_print (cl_result rt c)]))"
proof -
  let ?n = "4 * (width roi_out * height roi_out)"
  from process_Some [OF assms(2,3,4)]
  obtain out where p: "process piece ivoid ovoid roi_in roi_out = Some out" ..
  have len: "length out = length ovoid" by (rule process_length [OF p assms(2)])
  have "out = take ?n ivoid @ drop ?n ovoid"
  proof (rule nth_equalityI)
    show "length out = length (take ?n ivoid @ drop ?n ovoid)"
      using assms(3,4) len by simp
    fix i assume "i < length out"
    with len have i: "i < length ovoid" by simp
    from process_nth [OF p assms(2) i] assms(1)
    have "out ! i = (if i < ?n then ivoid ! i else ovoid ! i)" by simp
    with assms(3,4) i show "out ! i = (take ?n ivoid @ drop ?n ovoid) ! i"
      by (simp add: nth_append)
  qed
  with p have "\<exists>out. process piece ivoid ovoid roi_in roi_out = Some out \<and>
            out = take ?n ivoid @ drop ?n ovoid" by simp
  moreover from assms(1) have "process_cl rt gd piece dev_in dev_out roi_in roi_out =
           (let c = Enqueue_copy_image (devid (pipe piece)) dev_in dev_out (0, 0, 0) (0, 0, 0)
                      (width roi_in, height roi_in, 1)
            in if cl_result rt c = CL_SUCCESS then (True, [c])
               else (False, [c, Dt_print (cl_result rt c)]))"
    by (simp add: process_cl_def Let_def)
  ultimately show ?thesis by blast
qed

theorem process_nonpositive_strength_copies_witness:
  "(0::real) / 100 \<le> 0 \<and>
   process \<lparr>pipe = \<lparr>mask_display = 0, devid = 0\<rparr>, data = \<lparr>d_strength = 0, d_bias = 1\<rparr>,
            colors = 4\<rparr>
     [1 / 2, 1 / 2, 1 / 2, 1] [0, 0, 0, 0]
     \<lparr>roi_x = 0, roi_y = 0, width = 1, height = 1\<rparr>
     \<lparr>roi_x = 0, roi_y = 0, width = 1, height = 1\<rparr> = Some [1 / 2, 1 / 2, 1 / 2, 1] \<and>
   process_cl \<lparr>ROUNDUPWD = id, ROUNDUPHT = id, cl_result = (\<lambda>c. 0)\<rparr> \<lparr>kernel_velvia = 7\<rparr>
     \<lparr>pipe = \<lparr>mask_display = 0, devid = 0\<rparr>, data = \<lparr>d_strength = 0, d_bias = 1\<rparr>,
            colors = 4\<rparr> 1 2
     \<lparr>roi_x = 0, roi_y = 0, width = 1, height = 1\<rparr>
     \<lparr>roi_x = 0, roi_y = 0, width = 1, height = 1\<rparr> =
     (True, [Enqueue_copy_image 0 1 2 (0, 0, 0) (0, 0, 0) (1, 1, 1)])"
  using process_nonpositive_strength_copies
    [where piece = "\<lparr>pipe = \<lparr>mask_display = 0, devid = 0\<rparr>,
                     data = \<lparr>d_strength = 0, d_bias = 1\<rparr>, colors = 4\<rparr>"
       and ivoid = "[1 / 2, 1 / 2, 1 / 2, 1]" and ovoid = "[0, 0, 0, 0]"
       and roi_in = "\<lparr>roi_x = 0, roi_y = 0, width = 1, height = 1\<rparr>"
       and roi_out = "\<lparr>roi_x = 0, roi_y = 0, width = 1, height = 1\<rparr>"
       and rt = "\<lparr>ROUNDUPWD = id, ROUNDUPHT = id, cl_result = (\<lambda>c. 0)\<rparr>"
       and gd = "\<lparr>kernel_velvia = 7\<rparr>" and dev_in = 1 and dev_out = 2]
  by (simp add: CL_SUCCESS_def)

text \<open>
  C2. For a strength in [0, 100] and a bias in [0, 1], every pixel of the region whose
  three colour channels are in [0, 1] in the input has its three colour channels in
  [0, 1] in the output of \<open>process\<close>: the transform branch clamps each of them, the copy
  branch stores the input values.
\<close>

theorem process_output_clamped:
  assumes "colors piece = 4"
    and "4 * (width roi_out * height roi_out) \<le> length ivoid"
    and "4 * (width roi_out * height roi_out) \<le> length ovoid"
    and "0 \<le> d_strength (data piece)" and "d_strength (data piece) \<le> 100"
    and "0 \<le> d_bias (data piece)" and "d_bias (data piece) \<le> 1"
    and "k < width roi_out * height roi_out"
    and "\<forall>c<3. 0 \<le> ivoid ! (4 * k + c) \<and> ivoid ! (4 * k + c) \<le> 1"
  shows "\<exists>out. process piece ivoid ovoid roi_in roi_out = Some out \<and>
           (\<forall>c<3. 0 \<le> out ! (4 * k + c) \<and> out ! (4 * k + c) \<le> 1)"
proof -
  from process_Some [OF assms(1,2,3)]
  obtain out where p: "process piece ivoid ovoid roi_in roi_out = Some out" ..
  have "0 \<le> out ! (4 * k + c) \<and> out ! (4 * k + c) \<le> 1" if c: "c < 3" for c
  proof -
    from c have c4: "c < 4" by simp
    have dv: "(4 * k + c) div 4 = k" and md: "(4 * k + c) mod 4 = c"
      by (rule idx_div [OF c4], rule idx_mod [OF c4])
    from assms(8) c have "4 * k + c < 4 * (width roi_out * height roi_out)" by simp
    with assms(3) have i: "4 * k + c < length ovoid" by simp
    show ?thesis
    proof (cases "d_strength (data piece) / 100 \<le> 0")
      case True
      with process_nth [OF p assms(1) i] assms(8) c
      have "out ! (4 * k + c) = ivoid ! (4 * k + c)" by simp
      with assms(9) c show ?thesis by simp
    next
      case False
      with process_nth [OF p assms(1) i] assms(8) c dv md
      have "out ! (4 * k + c) =
              velvia_at (data piece) (d_strength (data piece) / 100) 4 ivoid (4 * k + c)"
        by simp
      then show ?thesis by (simp add: velvia_at_def velvia_pixel_unit)
    qed
  qed
  with p show ?thesis by simp
qed

theorem process_output_clamped_witness:
  "(0::real) \<le> 100 \<and> (100::real) \<le> 100 \<and> (0::real) \<le> 0 \<and> (0::real) \<le> 1 \<and>
   (\<exists>out. process \<lparr>pipe = \<lparr>mask_display = 0, devid = 0\<rparr>,
                    data = \<lparr>d_strength = 100, d_bias = 0\<rparr>, colors = 4\<rparr>
             [1, 0, 0, 1] [0, 0, 0, 0]
             \<lparr>roi_x = 0, roi_y = 0, width = 1, height = 1\<rparr>
             \<lparr>roi_x = 0, roi_y = 0, width = 1, height = 1\<rparr> = Some out \<and>
          0 \<le> out ! 0 \<and> out ! 0 \<le> 1 \<and> 0 \<le> out ! 1 \<and> out ! 1 \<le> 1 \<and>
          0 \<le> out ! 2 \<and> out ! 2 \<le> 1)"
  using process_output_clamped
    [where piece = "\<lparr>pipe = \<lparr>mask_display = 0, devid = 0\<rparr>,
                     data = \<lparr>d_strength = 100, d_bias = 0\<rparr>, colors = 4\<rparr>"
       and ivoid = "[1, 0, 0, 1]" and ovoid = "[0, 0, 0, 0]" and k = 0
       and roi_in = "\<lparr>roi_x = 0, roi_y = 0, width = 1, height = 1\<rparr>"
       and roi_out = "\<lparr>roi_x = 0, roi_y = 0, width = 1, height = 1\<rparr>"]
  by (simp add: all_less_3)




text \<open>
  C7. For the pixel (0.8, 0.2, 0.2) the locals of the loop body are \<open>pmax = 0.8\<close>,
  \<open>pmin = 0.2\<close> and \<open>plum = 0.5\<close>, the test \<open>plum <= 0.5\<close> holds, so \<open>psat\<close> takes its first
  branch, whose divisor \<open>1e-5 + pmax + pmin\<close> is positive. For every pixel \<open>psat\<close> is
  \<open>pmax - pmin\<close> over the divisor of the branch selected, and for channels in [0, 1] that
  divisor is at least \<open>1e-5\<close>.
\<close>

theorem psat_divisor_positive:
  "pmax (4 / 5) (1 / 5) (1 / 5) = 4 / 5 \<and>
   pmin (4 / 5) (1 / 5) (1 / 5) = 1 / 5 \<and>
   plum (4 / 5) (1 / 5) (1 / 5) = 1 / 2 \<and>
   plum (4 / 5) (1 / 5) (1 / 5) \<le> 1 / 2 \<and>
   psat_divisor (4 / 5) (1 / 5) (1 / 5) = 1 / 100000 + 4 / 5 + 1 / 5 \<and>
   0 < psat_divisor (4 / 5) (1 / 5) (1 / 5) \<and>
   psat in0 in1 in2 = (pmax in0 in1 in2 - pmin in0 in1 in2) / psat_divisor in0 in1 in2 \<and>
   (0 \<le> in0 \<and> in0 \<le> 1 \<and> 0 \<le> in1 \<and> in1 \<le> 1 \<and> 0 \<le> in2 \<and> in2 \<le> 1
      \<longrightarrow> 1 / 100000 \<le> psat_divisor in0 in1 in2)"
proof -
  have a: "pmax (4 / 5) (1 / 5) (1 / 5) = 4 / 5" "pmin (4 / 5) (1 / 5) (1 / 5) = 1 / 5"
    by (simp_all add: pmax_def pmin_def MAX_f_def MIN_f_def)
  then have b: "plum (4 / 5) (1 / 5) (1 / 5) = 1 / 2" by (simp add: plum_def)
  then have c: "psat_divisor (4 / 5) (1 / 5) (1 / 5) = 1 / 100000 + 4 / 5 + 1 / 5"
    by (simp add: psat_divisor_def a)
  have d: "psat in0 in1 in2 = (pmax in0 in1 in2 - pmin in0 in1 in2) / psat_divisor in0 in1 in2"
    by (simp add: psat_def psat_divisor_def)
  have e: "1 / 100000 \<le> psat_divisor in0 in1 in2"
    if "0 \<le> in0" "0 \<le> in1" "0 \<le> in2"
  proof -
    from that have "0 \<le> pmax in0 in1 in2" "0 \<le> pmin in0 in1 in2"
      by (simp_all add: pmax_def pmin_def MAX_f_def MIN_f_def)
    moreover have "0 \<le> MAX_f 0 z" for z by (simp add: MAX_f_def)
    ultimately show ?thesis by (simp add: psat_divisor_def)
  qed
  from a b c d e show ?thesis by simp
qed

theorem psat_divisor_positive_witness:
  "(0::real) \<le> 1 \<and> (1::real) \<le> 1 \<and> (0::real) \<le> 0 \<and> (0::real) \<le> 1 \<and>
   (1::real) / 100000 \<le> psat_divisor 1 1 0 \<and>
   psat 1 1 0 = (pmax 1 1 0 - pmin 1 1 0) / psat_divisor 1 1 0"
  using psat_divisor_positive [of 1 1 0] by simp

text \<open>
  C8. On a 4-channel buffer: when the mask-display flag of the pipeline is set, the 4th
  channel of every pixel of the region is, in the output of \<open>process\<close>, the 4th channel
  of the input; when the flag is not set and the strength is positive, the 4th channel of
  every pixel keeps what the output buffer held before the call. In both cases the three
  colour channels are those of the colour computation: the copy of the 4th channel comes
  after it and does not touch them. (On the copy branch, strength not positive, the 4th
  channel is part of the buffer copy and equals the input whatever the flag.)
\<close>

theorem process_alpha_channel:
  assumes "colors piece = 4"
    and "4 * (width roi_out * height roi_out) \<le> length ivoid"
    and "4 * (width roi_out * height roi_out) \<le> length ovoid"
  shows "\<exists>out. process piece ivoid ovoid roi_in roi_out = Some out \<and>
           (mask_display (pipe piece) AND DT_DEV_PIXELPIPE_DISPLAY_MASK \<noteq> 0 \<longrightarrow>
              (\<forall>k<width roi_out * height roi_out. out ! (4 * k + 3) = ivoid ! (4 * k + 3))) \<and>
           (\<not> mask_display (pipe piece) AND DT_DEV_PIXELPIPE_DISPLAY_MASK \<noteq> 0
              \<and> d_strength (data piece) / 100 > 0 \<longrightarrow>
              (\<forall>k<width roi_out * height roi_out. out ! (4 * k + 3) = ovoid ! (4 * k + 3))) \<and>
           (d_strength (data piece) / 100 \<le> 0 \<longrightarrow>
              (\<forall>k<width roi_out * height roi_out. out ! (4 * k + 3) = ivoid ! (4 * k + 3))) \<and>
           (\<forall>k<width roi_out * height roi_out. \<forall>c<3.
              out ! (4 * k + c) =
                pixel_channel c (process_pixel (data piece) (ivoid ! (4 * k))
                                   (ivoid ! (4 * k + 1)) (ivoid ! (4 * k + 2))))"
proof -
  from process_Some [OF assms]
  obtain out where p: "process piece ivoid ovoid roi_in roi_out = Some out" ..
  have a: "out ! (4 * k + 3) =
           (if d_strength (data piece) / 100 \<le> 0
               \<or> mask_display (pipe piece) AND DT_DEV_PIXELPIPE_DISPLAY_MASK \<noteq> 0
            then ivoid ! (4 * k + 3) else ovoid ! (4 * k + 3))"
    if "k < width roi_out * height roi_out" for k
    by (rule process_alpha_nth [OF p assms(1,3) that])
  have b: "\<forall>k<width roi_out * height roi_out. \<forall>c<3.
              out ! (4 * k + c) =
                pixel_channel c (process_pixel (data piece) (ivoid ! (4 * k))
                                   (ivoid ! (4 * k + 1)) (ivoid ! (4 * k + 2)))"
    using process_color_nth [OF p assms(1,3)] by blast
  from a have "mask_display (pipe piece) AND DT_DEV_PIXELPIPE_DISPLAY_MASK \<noteq> 0 \<longrightarrow>
              (\<forall>k<width roi_out * height roi_out. out ! (4 * k + 3) = ivoid ! (4 * k + 3))"
    by simp
  moreover from a have "\<not> mask_display (pipe piece) AND DT_DEV_PIXELPIPE_DISPLAY_MASK \<noteq> 0
              \<and> d_strength (data piece) / 100 > 0 \<longrightarrow>
              (\<forall>k<width roi_out * height roi_out. out ! (4 * k + 3) = ovoid ! (4 * k + 3))"
    by simp
  moreover from a have "d_strength (data piece) / 100 \<le> 0 \<longrightarrow>
              (\<forall>k<width roi_out * height roi_out. out ! (4 * k + 3) = ivoid ! (4 * k + 3))"
    by simp
  ultimately show ?thesis using p b by blast
qed

theorem process_alpha_channel_witness:
  "(1::32 word) AND DT_DEV_PIXELPIPE_DISPLAY_MASK \<noteq> 0 \<and>
   (\<exists>out. process \<lparr>pipe = \<lparr>mask_display = 1, devid = 0\<rparr>,
                    data = \<lparr>d_strength = 25, d_bias = 1\<rparr>, colors = 4\<rparr>
             [4 / 5, 1 / 5, 1 / 5, 9] [0, 0, 0, 3]
             \<lparr>roi_x = 0, roi_y = 0, width = 1, height = 1\<rparr>
             \<lparr>roi_x = 0, roi_y = 0, width = 1, height = 1\<rparr> = Some out \<and> out ! 3 = 9) \<and>
   \<not> (0::32 word) AND DT_DEV_PIXELPIPE_DISPLAY_MASK \<noteq> 0 \<and> (25::real) / 100 > 0 \<and>
   (\<exists>out. process \<lparr>pipe = \<lparr>mask_display = 0, devid = 0\<rparr>,
                    data = \<lparr>d_strength = 25, d_bias = 1\<rparr>, colors = 4\<rparr>
             [4 / 5, 1 / 5, 1 / 5, 9] [0, 0, 0, 3]
             \<lparr>roi_x = 0, roi_y = 0, width = 1, height = 1\<rparr>
             \<lparr>roi_x = 0, roi_y = 0, width = 1, height = 1\<rparr> = Some out \<and> out ! 3 = 3)"
  using process_alpha_channel
    [where piece = "\<lparr>pipe = \<lparr>mask_display = 1, devid = 0\<rparr>,
                     data = \<lparr>d_strength = 25, d_bias = 1\<rparr>, colors = 4\<rparr>"
       and ivoid = "[4 / 5, 1 / 5, 1 / 5, 9]" and ovoid = "[0, 0, 0, 3]"
       and roi_in = "\<lparr>roi_x = 0, roi_y = 0, width = 1, height = 1\<rparr>"
       and roi_out = "\<lparr>roi_x = 0, roi_y = 0, width = 1, height = 1\<rparr>"]
    process_alpha_channel
    [where piece = "\<lparr>pipe = \<lparr>mask_display = 0, devid = 0\<rparr>,
                     data = \<lparr>d_strength = 25, d_bias = 1\<rparr>, colors = 4\<rparr>"
       and ivoid = "[4 / 5, 1 / 5, 1 / 5, 9]" and ovoid = "[0, 0, 0, 3]"
       and roi_in = "\<lparr>roi_x = 0, roi_y = 0, width = 1, height = 1\<rparr>"
       and roi_out = "\<lparr>roi_x = 0, roi_y = 0, width = 1, height = 1\<rparr>"]
  by (auto simp: DT_DEV_PIXELPIPE_DISPLAY_MASK_def)

section \<open>Parameter migration\<close>

text \<open>
  C5. \<open>legacy_params\<close> returns 0 exactly for the version pair (1, 2); for every other
  pair it returns 1 and the record behind \<open>new_params\<close> is what it was before the call.
\<close>

theorem legacy_params_supported_pair:
  "(fst (legacy_params old ov new nv) = 0 \<longleftrightarrow> ov = 1 \<and> nv = 2) \<and>
   (\<not> (ov = 1 \<and> nv = 2) \<longrightarrow> legacy_params old ov new nv = (1, new))"
  by (simp add: legacy_params_def)

theorem legacy_params_supported_pair_witness:
  "\<not> ((2::int) = 1 \<and> (3::int) = 2) \<and>
   fst (legacy_params \<lparr>saturation = 50, vibrance = 50, luminance = 1, clarity = 0\<rparr> 2
           \<lparr>p_strength = 25, p_bias = 1\<rparr> 3) \<noteq> 0 \<and>
   legacy_params \<lparr>saturation = 50, vibrance = 50, luminance = 1, clarity = 0\<rparr> 2
           \<lparr>p_strength = 25, p_bias = 1\<rparr> 3 = (1, \<lparr>p_strength = 25, p_bias = 1\<rparr>)"
  using legacy_params_supported_pair
    [of "\<lparr>saturation = 50, vibrance = 50, luminance = 1, clarity = 0\<rparr>" 2
        "\<lparr>p_strength = 25, p_bias = 1\<rparr>" 3]
  by simp

text \<open>
  C6. The migration from version 1 to version 2 is a function of the old record alone:
  whatever the new record held before, it ends as
  \<open>strength = saturation * vibrance / 100\<close>, \<open>bias = luminance\<close>, with no clamping to the
  declared bounds. The second conjunct is an old record whose migrated strength, 200, lies
  outside the declared range [0, 100] and is stored as it is.
\<close>

theorem legacy_params_v1_to_v2:
  "legacy_params old 1 new 2 =
     (0, \<lparr> p_strength = saturation old * vibrance old / 100, p_bias = luminance old \<rparr>) \<and>
   legacy_params \<lparr>saturation = 200, vibrance = 100, luminance = 5, clarity = 0\<rparr> 1 new 2 =
     (0, \<lparr> p_strength = 200, p_bias = 5 \<rparr>)"
  by (simp add: legacy_params_def)

section \<open>The benchmark script\<close>

text \<open>
  C9. When no line of the trace contains \<open>to save the image\<close>, the loop of
  \<open>run_benchmark\<close> either leaves by an exception of \<open>float\<close>, which \<open>run_benchmark\<close>
  passes on, or ends with \<open>savetime\<close> still at its initial -1; the save time is then set
  to the load time and the overall time returned is load time + pipeline time + load
  time. A save time that differs from the load time therefore needs such a line.
\<close>

theorem run_benchmark_savetime_defaults_to_loadtime:
  assumes "\<forall>t\<in>set trace. \<not> py_in ''to save the image'' t"
  shows "case trace_loop float_strip bench_init trace of
           Inl e \<Rightarrow> run_benchmark float_strip trace = Inl e
         | Inr s \<Rightarrow>
             savetime s = - 1 \<and> final_savetime s = loadtime s \<and>
             run_benchmark float_strip trace
               = Inr (pixpipe s, loadtime s + pixpipe s + loadtime s, gpu s)"
proof (cases "trace_loop float_strip bench_init trace")
  case (Inl e)
  then show ?thesis by (simp add: run_benchmark_def)
next
  case (Inr s)
  from trace_loop_savetime [OF assms Inr] have "savetime s = - 1"
    by (simp add: bench_init_def)
  with Inr show ?thesis by (simp add: run_benchmark_def final_savetime_def)
qed

theorem run_benchmark_savetime_defaults_to_loadtime_witness:
  "\<not> py_in ''to save the image'' ''x took 1.5 sec to load the image'' \<and>
   \<not> py_in ''to save the image'' ''pipeline processing took 2.5 sec'' \<and>
   trace_loop (\<lambda>s. if s = '' 1.5 '' then Some (3 / 2) else if s = '' 2.5 '' then Some (5 / 2) else None)
     bench_init [''x took 1.5 sec to load the image'', ''pipeline processing took 2.5 sec'']
     = Inr \<lparr>loadtime = 3 / 2, savetime = - 1, pixpipe = 5 / 2, gpu = False\<rparr> \<and>
   run_benchmark (\<lambda>s. if s = '' 1.5 '' then Some (3 / 2) else if s = '' 2.5 '' then Some (5 / 2) else None)
     [''x took 1.5 sec to load the image'', ''pipeline processing took 2.5 sec'']
     = Inr (5 / 2, 11 / 2, False)"
proof -
  have a: "\<not> py_in ''to save the image'' ''x took 1.5 sec to load the image''"
    "\<not> py_in ''to save the image'' ''pipeline processing took 2.5 sec''"
    by (simp_all add: py_in_def py_find_def)
  have b: "trace_loop (\<lambda>s. if s = '' 1.5 '' then Some (3 / 2) else if s = '' 2.5 '' then Some (5 / 2) else None)
     bench_init [''x took 1.5 sec to load the image'', ''pipeline processing took 2.5 sec'']
     = Inr \<lparr>loadtime = 3 / 2, savetime = - 1, pixpipe = 5 / 2, gpu = False\<rparr>"
    by (simp add: trace_step_def extract_seconds_def py_in_def py_find_def bench_init_def Let_def)
  from run_benchmark_savetime_defaults_to_loadtime
    [of "[''x took 1.5 sec to load the image'', ''pipeline processing took 2.5 sec'']"
        "\<lambda>s. if s = '' 1.5 '' then Some (3 / 2) else if s = '' 2.5 '' then Some (5 / 2) else None"]
    a b
  show ?thesis by simp
qed

section \<open>The DNG header writer\<close>

text \<open>
  C10. A store of \<open>dt_imageio_dng_write_buf\<close> inside the buffer puts the 32-bit value at
  the bytes \<open>adr\<close> to \<open>adr + 3\<close>, most significant byte first: recomposing
  \<open>(buf[adr] << 24) + (buf[adr+1] << 16) + (buf[adr+2] << 8) + buf[adr+3]\<close> gives the value
  back, as an unsigned number the \<open>int\<close> modulo \<open>2^32\<close>, and no other byte changes. The
  three fields of a directory entry written by \<open>dt_imageio_dng_make_tag\<close> read back in the
  same way, and the file header starts with the byte-order mark \<open>MM\<close> (0x4d 0x4d), the
  number 42 and the directory offset 10, both big-endian.
\<close>

theorem write_buf_big_endian_roundtrip:
  "(0 \<le> adr \<and> adr + 3 < int (length buf) \<longrightarrow>
      (\<exists>buf'. dt_imageio_dng_write_buf buf adr val = Some buf' \<and>
         length buf' = length buf \<and>
         read_be32 buf' adr = val \<and>
         uint (read_be32 buf' adr) = sint val mod 2 ^ 32 \<and>
         (\<forall>j. j < nat adr \<or> nat adr + 3 < j \<longrightarrow> buf' ! j = buf ! j))) \<and>
   (0 \<le> b \<and> b + 11 < int (length buf) \<longrightarrow>
      (\<exists>buf'. dt_imageio_dng_make_tag tag type lng fld buf b cnt
                 = Some (buf', b + 12, cnt + 1) \<and>
         read_be32 buf' b = (push_bit 16 (ucast tag) OR ucast type) \<and>
         read_be32 buf' (b + 4) = lng \<and>
         read_be32 buf' (b + 8) = fld)) \<and>
   tiff_file_header ! 0 = 0x4d \<and> tiff_file_header ! 1 = 0x4d \<and>
   tiff_file_header ! 2 = 0 \<and> tiff_file_header ! 3 = 42 \<and>
   read_be32 tiff_file_header 4 = 10"
proof -
  have "\<exists>buf'. dt_imageio_dng_write_buf buf adr val = Some buf' \<and>
         length buf' = length buf \<and>
         read_be32 buf' adr = val \<and>
         uint (read_be32 buf' adr) = sint val mod 2 ^ 32 \<and>
         (\<forall>j. j < nat adr \<or> nat adr + 3 < j \<longrightarrow> buf' ! j = buf ! j)"
    if "0 \<le> adr" "adr + 3 < int (length buf)"
  proof -
    from write_buf_Some [OF that]
    obtain buf' where w: "dt_imageio_dng_write_buf buf adr val = Some buf'" ..
    note p = write_buf_props [OF w]
    from p(4) have "uint (read_be32 buf' adr) = sint val mod 2 ^ 32"
      by (simp add: uint_as_sint_mod)
    with w p(3,4,5) show ?thesis by blast
  qed
  moreover have "\<exists>buf'. dt_imageio_dng_make_tag tag type lng fld buf b cnt
                 = Some (buf', b + 12, cnt + 1) \<and>
         read_be32 buf' b = (push_bit 16 (ucast tag) OR ucast type) \<and>
         read_be32 buf' (b + 4) = lng \<and>
         read_be32 buf' (b + 8) = fld"
    if "0 \<le> b" "b + 11 < int (length buf)"
    using make_tag_fields [OF that, of tag type lng fld cnt] by blast
  moreover have "tiff_file_header ! 0 = 0x4d \<and> tiff_file_header ! 1 = 0x4d \<and>
     tiff_file_header ! 2 = 0 \<and> tiff_file_header ! 3 = 42 \<and>
     read_be32 tiff_file_header 4 = 10"
    by (simp add: tiff_file_header_def read_be32_def)
  ultimately show ?thesis by blast
qed

theorem write_buf_big_endian_roundtrip_witness:
  "(0::int) \<le> 4 \<and>
   (4::int) + 11 < int (length [0, 0, 0, 0, 0, 0, 0, 0, 0, 0, 0, 0, 0, 0, 0, 0 :: 8 word]) \<and>
   (\<exists>buf'. dt_imageio_dng_write_buf [0, 0, 0, 0, 0, 0, 0, 0, 0, 0, 0, 0, 0, 0, 0, 0] 4
              0x00FE0004 = Some buf' \<and>
      length buf' = 16 \<and> read_be32 buf' 4 = 0x00FE0004 \<and> buf' ! 0 = 0 \<and> buf' ! 8 = 0) \<and>
   (\<exists>buf'. dt_imageio_dng_make_tag 254 4 1 0 [0, 0, 0, 0, 0, 0, 0, 0, 0, 0, 0, 0, 0, 0, 0, 0]
              4 0 = Some (buf', 16, 1) \<and>
      read_be32 buf' 4 = 0x00FE0004 \<and> read_be32 buf' 8 = 1 \<and> read_be32 buf' 12 = 0)"
  using write_buf_big_endian_roundtrip
    [where adr = 4 and buf = "[0, 0, 0, 0, 0, 0, 0, 0, 0, 0, 0, 0, 0, 0, 0, 0]"
       and val = "0x00FE0004" and b = 4
       and tag = 254 and type = 4 and lng = 1 and fld = 0 and cnt = 0]
  by auto

end
